theory Spec2Isabelle
  imports Main "HOL-Library.Word"
begin

section \<open>Data model\<close>

text \<open>
  Go's \<^verbatim>\<open>uint64\<close> is a 64-bit word. \<^verbatim>\<open>config.AgentConfig\<close> is declared outside
  the three source files; its fields are read off their uses: \<^verbatim>\<open>ID\<close> and
  \<^verbatim>\<open>Image\<close> are strings, \<^verbatim>\<open>StartBlock\<close> and \<^verbatim>\<open>StopBlock\<close> are
  \<^verbatim>\<open>*uint64\<close> (compared with a \<^verbatim>\<open>uint64\<close> after a nil test), so a nil pointer
  is \<open>None\<close>. The field \<^verbatim>\<open>Image\<close> is written \<open>Image'\<close> here.
\<close>

type_synonym uint64 = "64 word"

record AgentConfig =
  ID :: string
  Image' :: string
  StartBlock :: "uint64 option"
  StopBlock :: "uint64 option"

text \<open>A Go \<^verbatim>\<open>error\<close> is kept as its message; \<^verbatim>\<open>log.Panicf\<close> and run-time
  panics are a value of their own.\<close>

type_synonym error = string

datatype panic = Panic string

section \<open>Agent worker: the admission filter\<close>

subsection \<open>strconv.ParseUint(s, 10, 64)\<close>

text \<open>
  \<^verbatim>\<open>shouldProcessBlock\<close> calls the standard library's \<^verbatim>\<open>strconv.ParseUint\<close> with
  base 10 and bit size 64 and drops the error. The library loop is transcribed for that
  base and size: the empty string is a syntax error with value 0; the bytes are read left
  to right; a byte that is no digit of the base is a syntax error with value 0; a digit
  that would take the value past 64 bits is a range error with value \<open>2^64 - 1\<close>. The
  first of these met while scanning decides the result.
\<close>

datatype NumError = ErrSyntax | ErrRange

definition lower :: "nat \<Rightarrow> nat" where
  "lower c = or c 32"

definition digitOf :: "char \<Rightarrow> nat option" where
  "digitOf ch =
     (let c = (of_char ch :: nat) in
      if 48 \<le> c \<and> c \<le> 57 then Some (c - 48)
      else if 97 \<le> lower c \<and> lower c \<le> 122 then Some (lower c - 97 + 10)
      else None)"

definition cutoff :: uint64 where
  "cutoff = 1844674407370955162"

definition maxVal :: uint64 where
  "maxVal = 18446744073709551615"

fun parseLoop :: "uint64 \<Rightarrow> string \<Rightarrow> uint64 \<times> NumError option" where
  "parseLoop n [] = (n, None)"
| "parseLoop n (c # cs) =
     (case digitOf c of
        None \<Rightarrow> (0, Some ErrSyntax)
      | Some d \<Rightarrow>
          if d \<ge> 10 then (0, Some ErrSyntax)
          else if n \<ge> cutoff then (maxVal, Some ErrRange)
          else
            (let n' = n * 10; n1 = n' + of_nat d in
             if n1 < n' \<or> n1 > maxVal then (maxVal, Some ErrRange)
             else parseLoop n1 cs))"

definition ParseUint :: "string \<Rightarrow> uint64 \<times> NumError option" where
  "ParseUint s = (if s = [] then (0, Some ErrSyntax) else parseLoop 0 s)"

subsection \<open>shouldProcessBlock\<close>

text \<open>Of the \<^verbatim>\<open>Agent\<close> struct the model keeps the configuration and the error
  counter (whose type is declared outside the source files, hence a parameter); the
  channels and clients are arguments and results of the functions that use them.\<close>

record 'c Agent =
  config :: AgentConfig
  errCounter :: 'c

definition shouldProcessBlock :: "'c Agent \<Rightarrow> string \<Rightarrow> bool" where
  "shouldProcessBlock agent blockNumber =
     (let n = fst (ParseUint blockNumber);
          isAtLeastStartBlock =
            (case StartBlock (config agent) of Some sb \<Rightarrow> sb \<ge> n | None \<Rightarrow> True);
          isAtMostStopBlock =
            (case StopBlock (config agent) of Some sb \<Rightarrow> sb \<le> n | None \<Rightarrow> True)
      in isAtLeastStartBlock \<and> isAtMostStopBlock)"

subsection \<open>Vocabulary for statements about height strings\<close>

text \<open>A numeric string is a non-empty string of decimal digits; \<open>decimal\<close> is the
  number it denotes, as an unbounded natural number.\<close>

definition isDecDigit :: "char \<Rightarrow> bool" where
  "isDecDigit ch = (48 \<le> (of_char ch :: nat) \<and> (of_char ch :: nat) \<le> 57)"

definition decimalStep :: "nat \<Rightarrow> char \<Rightarrow> nat" where
  "decimalStep a ch = a * 10 + (of_char ch - 48)"

definition decimal :: "string \<Rightarrow> nat" where
  "decimal s = foldl decimalStep 0 s"

definition numeric :: "string \<Rightarrow> bool" where
  "numeric s = (s \<noteq> [] \<and> list_all isDecDigit s)"

text \<open>The admission rule in the words of the specification, for a height \<open>h\<close> given
  as a number: the start bound is unset or \<open>h \<le> StartBlock\<close>, and the stop bound is
  unset or \<open>StopBlock \<le> h\<close>.\<close>

definition admissionRule :: "AgentConfig \<Rightarrow> nat \<Rightarrow> bool" where
  "admissionRule cfg h =
     ((case StartBlock cfg of None \<Rightarrow> True | Some sb \<Rightarrow> h \<le> unat sb) \<and>
      (case StopBlock cfg of None \<Rightarrow> True | Some sb \<Rightarrow> unat sb \<le> h))"

text \<open>The intended window of the bounds, as the names \<^verbatim>\<open>isAtLeastStartBlock\<close> and
  \<^verbatim>\<open>isAtMostStopBlock\<close> say it: \<open>StartBlock \<le> h \<le> StopBlock\<close>.\<close>

definition withinBounds :: "AgentConfig \<Rightarrow> nat \<Rightarrow> bool" where
  "withinBounds cfg h =
     ((case StartBlock cfg of None \<Rightarrow> True | Some sb \<Rightarrow> unat sb \<le> h) \<and>
      (case StopBlock cfg of None \<Rightarrow> True | Some sb \<Rightarrow> h \<le> unat sb))"

definition agentWith :: "uint64 option \<Rightarrow> uint64 option \<Rightarrow> unit Agent" where
  "agentWith start stop =
     \<lparr>config = \<lparr>ID = ''0xa1'', Image' = ''registry.example/img:v1'',
                 StartBlock = start, StopBlock = stop\<rparr>,
      errCounter = ()\<rparr>"

section \<open>Registry reconciler\<close>

subsection \<open>The roster and its updates\<close>

text \<open>
  \<^verbatim>\<open>agentUpdate\<close> is declared outside the source files; it is used with the fields
  \<^verbatim>\<open>Config\<close> (an \<^verbatim>\<open>AgentConfig\<close> value), \<^verbatim>\<open>IsCreation\<close>, \<^verbatim>\<open>IsUpdate\<close>
  and \<^verbatim>\<open>IsRemoval\<close>. The roster \<^verbatim>\<open>rs.agentsConfigs\<close> is a slice of
  \<^verbatim>\<open>AgentConfig\<close> values (line 132 appends \<^verbatim>\<open>update.Config\<close> to it, line 144
  declares its replacement as \<^verbatim>\<open>[]config.AgentConfig\<close>), modelled as a list.
\<close>

record agentUpdate =
  Config :: AgentConfig
  IsCreation :: bool
  IsUpdate :: bool
  IsRemoval :: bool

text \<open>Lines 127-131: the loop of the creation case returns from the function at the
  first entry with the update's ID; \<open>True\<close> stands for that return.\<close>

fun creationLoop :: "AgentConfig list \<Rightarrow> agentUpdate \<Rightarrow> bool" where
  "creationLoop [] update = False"
| "creationLoop (agent # rest) update =
     (if ID agent = ID (Config update) then True else creationLoop rest update)"

text \<open>
  Lines 135-141: \<^verbatim>\<open>for _, agent := range rs.agentsConfigs\<close> copies each element of
  the slice into the loop variable \<^verbatim>\<open>agent\<close>, and line 137 assigns to a field of
  that variable. The loop is modelled with both pieces of state: the slice (first
  argument, which no statement of the loop writes) and the loop variable, returned as it
  is when the function returns (\<open>None\<close> when the loop ends without a match).
\<close>

fun updateLoop ::
  "AgentConfig list \<Rightarrow> AgentConfig list \<Rightarrow> agentUpdate \<Rightarrow> AgentConfig list \<times> AgentConfig option"
where
  "updateLoop agentsConfigs [] update = (agentsConfigs, None)"
| "updateLoop agentsConfigs (elem # rest) update =
     (let agent = elem in
      if ID agent = ID (Config update)
      then (agentsConfigs, Some (agent\<lparr>Image' := Image' (Config update)\<rparr>))
      else updateLoop agentsConfigs rest update)"

text \<open>Lines 144-150: the removal case collects the entries with another ID.\<close>

fun removalLoop :: "AgentConfig list \<Rightarrow> agentUpdate \<Rightarrow> AgentConfig list \<Rightarrow> AgentConfig list" where
  "removalLoop [] update newAgents = newAgents"
| "removalLoop (agent # rest) update newAgents =
     removalLoop rest update
       (if ID agent \<noteq> ID (Config update) then newAgents @ [agent] else newAgents)"

text \<open>\<^verbatim>\<open>handleAgentUpdate\<close> maps the roster to the new roster, or panics in the
  default case of its switch. The cases are tried in the order of the source.\<close>

definition handleAgentUpdate :: "AgentConfig list \<Rightarrow> agentUpdate \<Rightarrow> panic + AgentConfig list" where
  "handleAgentUpdate agentsConfigs update =
     (if IsCreation update then
        (if creationLoop agentsConfigs update then Inr agentsConfigs
         else Inr (agentsConfigs @ [Config update]))
      else if IsUpdate update then
        Inr (fst (updateLoop agentsConfigs agentsConfigs update))
      else if IsRemoval update then
        Inr (removalLoop agentsConfigs update [])
      else Inl (Panic ''tried to handle unknown agent update''))"

subsection \<open>State of the service and its collaborators\<close>

text \<open>
  The state the functions of \<^verbatim>\<open>updates.go\<close> read and write: the roster, the
  contents of the channel \<^verbatim>\<open>rs.agentUpdates\<close> (oldest first; a send appends), the
  rosters published on the bus (oldest first), and the number of calls made so far to
  the content store, which indexes its answers (the store may answer the same path
  differently from one attempt to the next).
\<close>

record RegistryService =
  agentsConfigs :: "AgentConfig list"
  agentUpdates :: "agentUpdate list"
  published :: "AgentConfig list list"
  catCalls :: nat

text \<open>The three event types of the contract bindings carry a pool id, an agent id and
  (added, updated) a reference; one record stands for the three.\<close>

record 'h agentEvent =
  PoolId :: 'h
  AgentId :: 'h
  Ref :: string

text \<open>\<^verbatim>\<open>domain.LogEntry\<close> holds pointers (\<^verbatim>\<open>*log.Data\<close>, \<^verbatim>\<open>*topic\<close>);
  \<^verbatim>\<open>types.Log\<close> holds the bytes and the hashes.\<close>

record LogEntry =
  Data :: "string option"
  Topics :: "string option list"

record 'h Log =
  LogData :: string
  LogTopics :: "'h list"

text \<open>
  The collaborators the file calls but does not define, taken as parameters: the pool of
  this node, the hex rendering of a hash (\<^verbatim>\<open>common.Hash.String\<close>),
  \<^verbatim>\<open>common.HexToHash\<close>, the three decoders of \<^verbatim>\<open>rs.logUnpacker\<close>, the content
  store's \<^verbatim>\<open>Cat\<close> (by call number and path), the JSON decoding of the agent file
  (giving \<^verbatim>\<open>Manifest.ImageReference\<close>), the configured container registry and
  \<^verbatim>\<open>utils.ValidateImageRef\<close>.
\<close>

record 'h RegistryDeps =
  poolID :: 'h
  hashString :: "'h \<Rightarrow> string"
  HexToHash :: "string \<Rightarrow> 'h"
  UnpackAgentRegistryAgentAdded :: "'h Log \<Rightarrow> error + 'h agentEvent"
  UnpackAgentRegistryAgentUpdated :: "'h Log \<Rightarrow> error + 'h agentEvent"
  UnpackAgentRegistryAgentRemoved :: "'h Log \<Rightarrow> error + 'h agentEvent"
  Cat :: "nat \<Rightarrow> string \<Rightarrow> error + string"
  decodeAgentFile :: "string \<Rightarrow> error + string"
  ContainerRegistry :: string
  ValidateImageRef :: "string \<Rightarrow> string \<Rightarrow> string \<times> bool"

subsection \<open>makeAgentConfig and sendAgentUpdate\<close>

text \<open>
  Lines 78-83: \<^verbatim>\<open>for i := 0; i < 10; i++\<close> with a \<^verbatim>\<open>break\<close> on success. The test
  \<open>i < 10\<close> holds on entry, so the loop is written from its body: one call, then either
  the break, or the increment and the test. The result is the last answer of the store
  and the number of calls made.
\<close>

function catLoop :: "(nat \<Rightarrow> string \<Rightarrow> error + string) \<Rightarrow> string \<Rightarrow> nat \<Rightarrow> nat \<Rightarrow> (error + string) \<times> nat" where
  "catLoop cat path i calls =
     (case cat calls path of
        Inr r \<Rightarrow> (Inr r, calls + 1)
      | Inl err \<Rightarrow>
          if i + 1 < 10 then catLoop cat path (i + 1) (calls + 1)
          else (Inl err, calls + 1))"
  by pat_completeness auto
termination
  by (relation "measure (\<lambda>(cat, path, i, calls). 10 - i)") auto

declare catLoop.simps [simp del]

text \<open>\<^verbatim>\<open>makeAgentConfig\<close> returns its two named results, the configuration and the
  error (\<open>None\<close> is \<^verbatim>\<open>nil\<close>), and the state with the calls counted.\<close>

definition makeAgentConfig ::
  "'h RegistryDeps \<Rightarrow> RegistryService \<Rightarrow> 'h \<Rightarrow> string \<Rightarrow> (AgentConfig \<times> error option) \<times> RegistryService"
where
  "makeAgentConfig deps rs agentID ref =
     (let agentCfg = \<lparr>ID = hashString deps agentID, Image' = [], StartBlock = None, StopBlock = None\<rparr> in
      if length ref = 0 then ((agentCfg, None), rs)
      else
        (case catLoop (Cat deps) (''/ipfs/'' @ ref) 0 (catCalls rs) of
           (Inl err, calls) \<Rightarrow>
             ((agentCfg, Some (''failed to load the agent file using ipfs ref: '' @ err)),
              rs\<lparr>catCalls := calls\<rparr>)
         | (Inr r, calls) \<Rightarrow>
             (case decodeAgentFile deps r of
                Inl err \<Rightarrow>
                  ((agentCfg, Some (''failed to decode the agent file: '' @ err)),
                   rs\<lparr>catCalls := calls\<rparr>)
              | Inr imageReference \<Rightarrow>
                  ((agentCfg\<lparr>Image' :=
                      fst (ValidateImageRef deps (ContainerRegistry deps) imageReference)\<rparr>, None),
                   rs\<lparr>catCalls := calls\<rparr>))))"

definition sendAgentUpdate ::
  "'h RegistryDeps \<Rightarrow> RegistryService \<Rightarrow> agentUpdate \<Rightarrow> 'h \<Rightarrow> string \<Rightarrow> error option \<times> RegistryService"
where
  "sendAgentUpdate deps rs update agentID ref =
     (case makeAgentConfig deps rs agentID ref of
        ((agentCfg, Some err), rs') \<Rightarrow> (Some err, rs')
      | ((agentCfg, None), rs') \<Rightarrow>
          (None, rs'\<lparr>agentUpdates := agentUpdates rs' @ [update\<lparr>Config := agentCfg\<rparr>]\<rparr>))"

subsection \<open>detectAgentEvents\<close>

text \<open>Lines 105-113: dereferencing a nil \<^verbatim>\<open>Data\<close> or topic pointer panics.\<close>

fun transformTopics :: "(string \<Rightarrow> 'h) \<Rightarrow> string option list \<Rightarrow> 'h list \<Rightarrow> panic + 'h list" where
  "transformTopics h2h [] acc = Inr acc"
| "transformTopics h2h (None # rest) acc = Inl (Panic ''nil pointer dereference'')"
| "transformTopics h2h (Some topic # rest) acc = transformTopics h2h rest (acc @ [h2h topic])"

definition transformLog :: "(string \<Rightarrow> 'h) \<Rightarrow> LogEntry \<Rightarrow> panic + 'h Log" where
  "transformLog h2h log =
     (case Data log of
        None \<Rightarrow> Inl (Panic ''nil pointer dereference'')
      | Some d \<Rightarrow>
          (case transformTopics h2h (Topics log) [] of
             Inl p \<Rightarrow> Inl p
           | Inr ts \<Rightarrow> Inr \<lparr>LogData = d, LogTopics = ts\<rparr>))"

text \<open>
  Lines 18-50, over the logs of \<^verbatim>\<open>evt.Receipt.Logs\<close>. Each of the three blocks
  either does not decode the log (falls through), or decodes an event of another pool
  (\<^verbatim>\<open>continue\<close>), or returns what \<^verbatim>\<open>sendAgentUpdate\<close> returns. The two empty
  configurations below are the zero value of \<^verbatim>\<open>Config\<close> in the struct literals.
\<close>

definition zeroConfig :: AgentConfig where
  "zeroConfig = \<lparr>ID = [], Image' = [], StartBlock = None, StopBlock = None\<rparr>"

definition creationUpdate :: agentUpdate where
  "creationUpdate = \<lparr>Config = zeroConfig, IsCreation = True, IsUpdate = False, IsRemoval = False\<rparr>"

definition updateUpdate :: agentUpdate where
  "updateUpdate = \<lparr>Config = zeroConfig, IsCreation = False, IsUpdate = True, IsRemoval = False\<rparr>"

definition removalUpdate :: agentUpdate where
  "removalUpdate = \<lparr>Config = zeroConfig, IsCreation = False, IsUpdate = False, IsRemoval = True\<rparr>"

fun detectAgentEvents ::
  "'h RegistryDeps \<Rightarrow> RegistryService \<Rightarrow> LogEntry list \<Rightarrow> panic + (error option \<times> RegistryService)"
where
  "detectAgentEvents deps rs [] = Inr (None, rs)"
| "detectAgentEvents deps rs (logEntry # rest) =
     (case transformLog (HexToHash deps) logEntry of
        Inl p \<Rightarrow> Inl p
      | Inr log \<Rightarrow>
          (case UnpackAgentRegistryAgentAdded deps log of
             Inr addedEvent \<Rightarrow>
               if hashString deps (PoolId addedEvent) \<noteq> hashString deps (poolID deps)
               then detectAgentEvents deps rs rest
               else Inr (sendAgentUpdate deps rs creationUpdate (AgentId addedEvent) (Ref addedEvent))
           | Inl _ \<Rightarrow>
          (case UnpackAgentRegistryAgentUpdated deps log of
             Inr updatedEvent \<Rightarrow>
               if hashString deps (PoolId updatedEvent) \<noteq> hashString deps (poolID deps)
               then detectAgentEvents deps rs rest
               else Inr (sendAgentUpdate deps rs updateUpdate (AgentId updatedEvent) (Ref updatedEvent))
           | Inl _ \<Rightarrow>
          (case UnpackAgentRegistryAgentRemoved deps log of
             Inr removedEvent \<Rightarrow>
               if hashString deps (PoolId removedEvent) \<noteq> hashString deps (poolID deps)
               then detectAgentEvents deps rs rest
               else Inr (sendAgentUpdate deps rs removalUpdate (AgentId removedEvent) [])
           | Inl _ \<Rightarrow> detectAgentEvents deps rs rest))))"

subsection \<open>listenToAgentUpdates\<close>

text \<open>Lines 115-121: the consumer takes the queued updates in order, applies each and
  publishes the roster after it. It ends when the queue is drained, or with the panic of
  \<^verbatim>\<open>handleAgentUpdate\<close>.\<close>

fun consumeUpdates :: "RegistryService \<Rightarrow> agentUpdate list \<Rightarrow> panic + RegistryService" where
  "consumeUpdates rs [] = Inr (rs\<lparr>agentUpdates := []\<rparr>)"
| "consumeUpdates rs (update # queue) =
     (case handleAgentUpdate (agentsConfigs rs) update of
        Inl p \<Rightarrow> Inl p
      | Inr roster \<Rightarrow>
          consumeUpdates (rs\<lparr>agentsConfigs := roster, published := published rs @ [roster]\<rparr>) queue)"

definition listenToAgentUpdates :: "RegistryService \<Rightarrow> panic + RegistryService" where
  "listenToAgentUpdates rs = consumeUpdates rs (agentUpdates rs)"

section \<open>Agent worker: the evaluation pipelines\<close>

text \<open>
  The response types of the protocol package are declared outside the source files; the
  pipelines use their \<^verbatim>\<open>Metadata\<close> field, a Go map from string to string. A Go map
  value is either nil or a table; reading a nil map is allowed, assigning to an entry of
  a nil map panics. \<open>None\<close> is the nil map. The rest of a response is \<open>Verdict\<close>.
\<close>

record 'f EvaluateResponse =
  Metadata :: "(string \<rightharpoonup> string) option"
  Verdict :: 'f

record ('q, 'f) TxResult =
  TxAgentConfig :: AgentConfig
  TxRequest :: 'q
  TxResponse :: "'f EvaluateResponse"

record ('b, 'f) BlockResult =
  BlockAgentConfig :: AgentConfig
  BlockRequest :: 'b
  BlockResponse :: "'f EvaluateResponse"

text \<open>
  The collaborators of the pipelines, as parameters: the agent client's two calls (by
  call number and request; the 5-second deadline shows as an error answer),
  \<^verbatim>\<open>errCounter.TooManyErrs\<close> as a transition of the counter, and
  \<^verbatim>\<open>config.ImageHash\<close>.
\<close>

record ('q, 'b, 'f, 'c) AgentDeps =
  EvaluateTx :: "nat \<Rightarrow> 'q \<Rightarrow> error + 'f EvaluateResponse"
  EvaluateBlock :: "nat \<Rightarrow> 'b \<Rightarrow> error + 'f EvaluateResponse"
  TooManyErrs :: "'c \<Rightarrow> error \<Rightarrow> bool \<times> 'c"
  ImageHash :: "AgentConfig \<Rightarrow> string"

text \<open>What one pipeline has done so far: the agent (\<open>worker\<close>, with its counter), the results sent
  on its output channel, the stop messages published (each an \<^verbatim>\<open>AgentPayload\<close>, a
  slice of configurations), and the number of calls to the client.\<close>

record ('r, 'c) pipeline =
  worker :: "'c Agent"
  sent :: "'r list"
  stopPublished :: "AgentConfig list list"
  clientCalls :: nat

text \<open>
  Lines 76-100, over the requests received from \<^verbatim>\<open>agent.evalTxCh\<close> until the channel
  is closed and drained. \<open>Inl\<close> is the panic of line 85; \<open>Inr\<close> is the state when the
  function returns (channel drained, or the return of line 97).
\<close>

fun processTransactions ::
  "('q, 'b, 'f, 'c) AgentDeps \<Rightarrow> (('q, 'f) TxResult, 'c) pipeline \<Rightarrow> 'q list \<Rightarrow>
   panic + (('q, 'f) TxResult, 'c) pipeline"
where
  "processTransactions deps p [] = Inr p"
| "processTransactions deps p (request # rest) =
     (case EvaluateTx deps (clientCalls p) request of
        Inr resp \<Rightarrow>
          (case Metadata resp of
             None \<Rightarrow> Inl (Panic ''assignment to entry in nil map'')
           | Some m \<Rightarrow>
               processTransactions deps
                 (p\<lparr>clientCalls := clientCalls p + 1,
                    sent := sent p @
                      [\<lparr>TxAgentConfig = config (worker p), TxRequest = request,
                        TxResponse = resp\<lparr>Metadata :=
                          Some (m(''imageHash'' \<mapsto> ImageHash deps (config (worker p))))\<rparr>\<rparr>]\<rparr>)
                 rest)
      | Inl err \<Rightarrow>
          (case TooManyErrs deps (errCounter (worker p)) err of
             (True, c) \<Rightarrow>
               Inr (p\<lparr>clientCalls := clientCalls p + 1, worker := (worker p)\<lparr>errCounter := c\<rparr>,
                      stopPublished := stopPublished p @ [[config (worker p)]]\<rparr>)
           | (False, c) \<Rightarrow>
               processTransactions deps
                 (p\<lparr>clientCalls := clientCalls p + 1, worker := (worker p)\<lparr>errCounter := c\<rparr>\<rparr>) rest))"

text \<open>Lines 102-126, the same loop over \<^verbatim>\<open>agent.evalBlockCh\<close>; the panic is that
  of line 111.\<close>

fun processBlocks ::
  "('q, 'b, 'f, 'c) AgentDeps \<Rightarrow> (('b, 'f) BlockResult, 'c) pipeline \<Rightarrow> 'b list \<Rightarrow>
   panic + (('b, 'f) BlockResult, 'c) pipeline"
where
  "processBlocks deps p [] = Inr p"
| "processBlocks deps p (request # rest) =
     (case EvaluateBlock deps (clientCalls p) request of
        Inr resp \<Rightarrow>
          (case Metadata resp of
             None \<Rightarrow> Inl (Panic ''assignment to entry in nil map'')
           | Some m \<Rightarrow>
               processBlocks deps
                 (p\<lparr>clientCalls := clientCalls p + 1,
                    sent := sent p @
                      [\<lparr>BlockAgentConfig = config (worker p), BlockRequest = request,
                        BlockResponse = resp\<lparr>Metadata :=
                          Some (m(''imageHash'' \<mapsto> ImageHash deps (config (worker p))))\<rparr>\<rparr>]\<rparr>)
                 rest)
      | Inl err \<Rightarrow>
          (case TooManyErrs deps (errCounter (worker p)) err of
             (True, c) \<Rightarrow>
               Inr (p\<lparr>clientCalls := clientCalls p + 1, worker := (worker p)\<lparr>errCounter := c\<rparr>,
                      stopPublished := stopPublished p @ [[config (worker p)]]\<rparr>)
           | (False, c) \<Rightarrow>
               processBlocks deps
                 (p\<lparr>clientCalls := clientCalls p + 1, worker := (worker p)\<lparr>errCounter := c\<rparr>\<rparr>) rest))"

section \<open>Alert query API: parseQueryRequest\<close>

text \<open>
  The request is read through \<^verbatim>\<open>r.URL.Query()\<close> only. The query string is modelled
  as its list of key-value pairs in the order of the URL; \<^verbatim>\<open>url.Values\<close> maps a key
  to the list of its values in that order, and \<^verbatim>\<open>Get\<close> gives the first value of a
  key, or the empty string when the key has none.
\<close>

type_synonym query = "(string \<times> string) list"

definition queryValues :: "query \<Rightarrow> string \<Rightarrow> string list" where
  "queryValues q k = map snd (filter (\<lambda>kv. fst kv = k) q)"

definition Get :: "query \<Rightarrow> string \<Rightarrow> string" where
  "Get q key = (case queryValues q key of [] \<Rightarrow> [] | v # _ \<Rightarrow> v)"

text \<open>
  \<^verbatim>\<open>strconv.Atoi\<close> (with Go's 64-bit \<^verbatim>\<open>int\<close>): an optional sign, then one or more
  decimal digits, with a value between \<open>-2^63\<close> and \<open>2^63 - 1\<close>; anything else is an
  error. The callers only test whether the error is nil, so the error is \<open>None\<close>.
\<close>

definition Atoi :: "string \<Rightarrow> int option" where
  "Atoi s =
     (let (neg, ds) =
        (case s of
           [] \<Rightarrow> (False, s)
         | c # cs \<Rightarrow>
             if c = CHR ''-'' then (True, cs)
             else if c = CHR ''+'' then (False, cs)
             else (False, s))
      in
      if \<not> numeric ds then None
      else
        (let v = (if neg then - int (decimal ds) else int (decimal ds)) in
         if v < - (2 ^ 63) \<or> 2 ^ 63 - 1 < v then None else Some v))"

text \<open>A \<^verbatim>\<open>time.Time\<close> is kept as its nanoseconds since the epoch.
  \<^verbatim>\<open>int64(ms) * int64(time.Millisecond)\<close> wraps around in 64 bits.\<close>

definition wrap64 :: "int \<Rightarrow> int" where
  "wrap64 x = (x + 2 ^ 63) mod 2 ^ 64 - 2 ^ 63"

definition getDateParam :: "query \<Rightarrow> string \<Rightarrow> int \<Rightarrow> error + int" where
  "getDateParam q name defaultTime =
     (let dtStr = Get q name in
      if dtStr = [] then Inr defaultTime
      else
        (case Atoi dtStr of
           None \<Rightarrow> Inl (name @ '' must be in milliseconds format'')
         | Some ms \<Rightarrow>
             if ms < 1000000000000 then Inl (name @ '' must be in milliseconds format'')
             else Inr (wrap64 (ms * 1000000))))"

definition reservedParams :: "string list" where
  "reservedParams = [''startDate'', ''endDate'', ''limit'', ''pageToken'', ''sort'']"

fun isReservedLoop :: "string list \<Rightarrow> string \<Rightarrow> bool" where
  "isReservedLoop [] param = False"
| "isReservedLoop (nfp # rest) param = (if nfp = param then True else isReservedLoop rest param)"

definition isReservedParam :: "string \<Rightarrow> bool" where
  "isReservedParam param = isReservedLoop reservedParams param"

datatype operator = Equals | NotEquals

record FilterCriterion =
  Operator :: operator
  Field :: string
  Values :: "string list"

text \<open>\<^verbatim>\<open>strings.Split(val, ",")\<close>: the pieces between the commas (one piece, the whole
  string, when there is no comma). The accumulator is the piece being read.\<close>

fun splitComma :: "string \<Rightarrow> string \<Rightarrow> string list" where
  "splitComma acc [] = [acc]"
| "splitComma acc (c # cs) =
     (if c = CHR '','' then acc # splitComma [] cs else splitComma (acc @ [c]) cs)"

definition prefixNot :: string where
  "prefixNot = ''{not}''"

definition HasPrefix :: "string \<Rightarrow> string \<Rightarrow> bool" where
  "HasPrefix s pre = (take (length pre) s = pre)"

definition TrimPrefix :: "string \<Rightarrow> string \<Rightarrow> string" where
  "TrimPrefix s pre = (if HasPrefix s pre then drop (length pre) s else s)"

text \<open>
  Lines 67-86. Go iterates over a map in no fixed order; the keys are taken here in the
  order of their first appearance in the URL. Every key of the map has at least one
  value, so \<^verbatim>\<open>v[0]\<close> is the first element of a non-empty list.
\<close>

fun filterLoop :: "query \<Rightarrow> string list \<Rightarrow> FilterCriterion list \<Rightarrow> error + FilterCriterion list" where
  "filterLoop q [] filters = Inr filters"
| "filterLoop q (k # ks) filters =
     (let v = queryValues q k in
      if \<not> isReservedParam k then
        (if length v > 1 then Inl (k @ '' cannot be array'')
         else
           (let val0 = v ! 0;
                op = (if HasPrefix val0 prefixNot then NotEquals else Equals);
                val = (if HasPrefix val0 prefixNot then TrimPrefix val0 prefixNot else val0);
                valList = splitComma [] val
            in filterLoop q ks (filters @ [\<lparr>Operator = op, Field = k, Values = valList\<rparr>])))
      else filterLoop q ks filters)"

definition parseFilterCriteria :: "query \<Rightarrow> error + FilterCriterion list" where
  "parseFilterCriteria q = filterLoop q (remdups (map fst q)) []"

record AlertQueryRequest =
  StartTime :: int
  EndTime :: int
  PageToken :: string
  Limit :: int
  Criteria :: "FilterCriterion list"
  Reverse :: bool

definition defaultSinceDate :: int where
  "defaultSinceDate = - 24 * 7 * 3600000000000"

definition defaultPageLimit :: int where
  "defaultPageLimit = 100"

definition maxPageLimit :: int where
  "maxPageLimit = 1000"

text \<open>Lines 91-122: the dates, the filters and the sort order, up to the request with
  the default limit; \<open>now\<close> is the reading of \<^verbatim>\<open>time.Now()\<close>.\<close>

definition buildRequest :: "query \<Rightarrow> int \<Rightarrow> error + AlertQueryRequest" where
  "buildRequest q now =
     (case getDateParam q ''startDate'' (now + defaultSinceDate) of
        Inl err \<Rightarrow> Inl ''startDate must be in RFC3339 format''
      | Inr startDate \<Rightarrow>
     (case getDateParam q ''endDate'' now of
        Inl err \<Rightarrow> Inl ''endDate must be in RFC3339 format''
      | Inr endDate \<Rightarrow>
     (case parseFilterCriteria q of
        Inl err \<Rightarrow> Inl err
      | Inr filters \<Rightarrow>
     (let s = Get q ''sort'' in
      if s \<noteq> ''asc'' \<and> s \<noteq> ''desc'' \<and> s \<noteq> [] then
        Inl ''sort must be either asc or desc (default asc)''
      else
        Inr \<lparr>StartTime = startDate, EndTime = endDate, PageToken = Get q ''pageToken'',
             Limit = defaultPageLimit, Criteria = filters, Reverse = (s = ''desc'')\<rparr>))))"

text \<open>Lines 124-135: the handling of \<^verbatim>\<open>limit\<close>, on the request built so far.\<close>

definition applyLimit :: "query \<Rightarrow> AlertQueryRequest \<Rightarrow> error + AlertQueryRequest" where
  "applyLimit q request =
     (let limit = Get q ''limit'' in
      if limit \<noteq> [] then
        (case Atoi limit of
           None \<Rightarrow> Inl ''limit must be an integer''
         | Some l \<Rightarrow>
             if l > maxPageLimit then Inl ''limit cannot exceed 1000''
             else Inr (request\<lparr>Limit := l\<rparr>))
      else Inr request)"

text \<open>Lines 90-136, the two parts in sequence.\<close>

definition parseQueryRequest :: "query \<Rightarrow> int \<Rightarrow> error + AlertQueryRequest" where
  "parseQueryRequest q now =
     (case buildRequest q now of
        Inl err \<Rightarrow> Inl err
      | Inr request \<Rightarrow> applyLimit q request)"

subsection \<open>The handler getAlerts\<close>

text \<open>
  Lines 181-206. The store's \<^verbatim>\<open>QueryAlerts\<close> and the marshalling of the response
  are parameters. \<open>Inl (status, err)\<close> is the call \<^verbatim>\<open>writeError(w, status, err)\<close>
  followed by the return, with 400 for \<^verbatim>\<open>http.StatusBadRequest\<close> and 500 for
  \<^verbatim>\<open>http.StatusInternalServerError\<close>; \<open>Inr\<close> is the body written.
  \<^verbatim>\<open>getAgentReport\<close> (lines 143-148) starts with the same parse and the same
  rejection.
\<close>

definition getAlerts ::
  "(AlertQueryRequest \<Rightarrow> error + 'a) \<Rightarrow> ('a \<Rightarrow> error + string) \<Rightarrow> query \<Rightarrow> int \<Rightarrow>
   (nat \<times> error) + string"
where
  "getAlerts QueryAlerts Marshal q now =
     (case parseQueryRequest q now of
        Inl err \<Rightarrow> Inl (400, err)
      | Inr queryReq \<Rightarrow>
          (case QueryAlerts queryReq of
             Inl err \<Rightarrow> Inl (500, err)
           | Inr alerts \<Rightarrow>
               (case Marshal alerts of
                  Inl err \<Rightarrow> Inl (500, err)
                | Inr written \<Rightarrow> Inr written)))"

section \<open>Example values\<close>

text \<open>Concrete collaborators and inputs, used to evaluate the functions above.\<close>

definition mkConfig :: "string \<Rightarrow> string \<Rightarrow> AgentConfig" where
  "mkConfig i img = \<lparr>ID = i, Image' = img, StartBlock = None, StopBlock = None\<rparr>"

text \<open>A decoder that recognises a log by its first topic and reads the pool and the
  agent from the next two topics and the reference from the data.\<close>

definition eventOf :: "string \<Rightarrow> string Log \<Rightarrow> error + string agentEvent" where
  "eventOf signature log =
     (case LogTopics log of
        [sig, pool, agentID] \<Rightarrow>
          if sig = signature then Inr \<lparr>PoolId = pool, AgentId = agentID, Ref = LogData log\<rparr>
          else Inl ''event signature mismatch''
      | _ \<Rightarrow> Inl ''event signature mismatch'')"

text \<open>A registry service of pool \<open>pool-P\<close> over a given content store; hashes are kept
  as their hex strings, the agent file decodes to its own text, every image reference
  is valid.\<close>

definition demoDeps :: "(nat \<Rightarrow> string \<Rightarrow> error + string) \<Rightarrow> string RegistryDeps" where
  "demoDeps cat =
     \<lparr>poolID = ''pool-P'', hashString = (\<lambda>h. h), HexToHash = (\<lambda>s. s),
      UnpackAgentRegistryAgentAdded = eventOf ''AgentAdded'',
      UnpackAgentRegistryAgentUpdated = eventOf ''AgentUpdated'',
      UnpackAgentRegistryAgentRemoved = eventOf ''AgentRemoved'',
      Cat = cat,
      decodeAgentFile = (\<lambda>r. Inr r),
      ContainerRegistry = ''registry.example'',
      ValidateImageRef = (\<lambda>registry ref. (ref, True))\<rparr>"

definition logOf :: "string \<Rightarrow> string \<Rightarrow> string \<Rightarrow> string \<Rightarrow> LogEntry" where
  "logOf signature pool agentID ref =
     \<lparr>Data = Some ref, Topics = [Some signature, Some pool, Some agentID]\<rparr>"

definition emptyService :: RegistryService where
  "emptyService = \<lparr>agentsConfigs = [], agentUpdates = [], published = [], catCalls = 0\<rparr>"

text \<open>An agent client whose every answer carries the given metadata map, a counter
  that never trips, and a pipeline that has done nothing yet.\<close>

definition demoAgentDeps :: "(string \<rightharpoonup> string) option \<Rightarrow> (string, string, unit, unit) AgentDeps" where
  "demoAgentDeps md =
     \<lparr>EvaluateTx = (\<lambda>n request. Inr \<lparr>Metadata = md, Verdict = ()\<rparr>),
      EvaluateBlock = (\<lambda>n request. Inr \<lparr>Metadata = md, Verdict = ()\<rparr>),
      TooManyErrs = (\<lambda>c err. (False, c)),
      ImageHash = (\<lambda>cfg. ''sha256:0001'')\<rparr>"

definition freshPipeline :: "('r, unit) pipeline" where
  "freshPipeline =
     \<lparr>worker = \<lparr>config = mkConfig ''0xa1'' ''registry.example/img:v1'', errCounter = ()\<rparr>,
      sent = [], stopPublished = [], clientCalls = 0\<rparr>"

section \<open>Properties of the admission filter\<close>

subsection \<open>What ParseUint returns\<close>

lemma digitOf_digit: "isDecDigit c \<Longrightarrow> digitOf c = Some (of_char c - 48)"
  by (simp add: isDecDigit_def digitOf_def)

lemma digit_lt_10: "isDecDigit c \<Longrightarrow> (of_char c :: nat) - 48 < 10"
  by (auto simp add: isDecDigit_def)

lemma digitOf_nondigit:
  "\<not> isDecDigit c \<Longrightarrow> digitOf c = None \<or> (\<exists>d. digitOf c = Some d \<and> 10 \<le> d)"
  by (auto simp add: isDecDigit_def digitOf_def Let_def)

lemma parseLoop_nondigit: "\<not> isDecDigit c \<Longrightarrow> parseLoop n (c # cs) = (0, Some ErrSyntax)"
  using digitOf_nondigit [of c] by auto

lemma cutoff_iff: "(cutoff \<le> n) = (2 ^ 64 \<le> unat n * 10)"
  by (simp add: cutoff_def word_le_nat_alt) arith

lemma unat_times10: "unat n * 10 < 2 ^ 64 \<Longrightarrow> unat (n * (10 :: uint64)) = unat n * 10"
  by (simp add: unat_word_ariths)

lemma le_maxVal: "\<not> maxVal < (x :: uint64)"
  using unsigned_less [of x, where 'a = nat] by (simp add: maxVal_def word_less_nat_alt)

lemma add_digit_overflow:
  assumes "d < 10"
  shows "((m :: uint64) + of_nat d < m) = (2 ^ 64 \<le> unat m + d)"
proof -
  have d: "unat (of_nat d :: uint64) = d"
    using assms by (simp add: unat_of_nat)
  have "(m \<le> m + of_nat d) = (unat m + unat (of_nat d :: uint64) < 2 ^ LENGTH(64))"
    by (rule no_olen_add_nat)
  then show ?thesis using d by (simp add: not_le [symmetric])
qed

lemma parseLoop_digit:
  assumes "isDecDigit c"
  shows "parseLoop n (c # cs) =
     (if decimalStep (unat n) c < 2 ^ 64 then parseLoop (of_nat (decimalStep (unat n) c)) cs
      else (maxVal, Some ErrRange))"
proof -
  let ?d = "(of_char c :: nat) - 48"
  have d: "digitOf c = Some ?d" and d10: "?d < 10"
    using assms by (simp_all add: digitOf_digit digit_lt_10)
  have step: "parseLoop n (c # cs) =
      (if cutoff \<le> n then (maxVal, Some ErrRange)
       else if n * 10 + of_nat ?d < n * 10 then (maxVal, Some ErrRange)
       else parseLoop (n * 10 + of_nat ?d) cs)"
    using d d10 by (simp add: Let_def le_maxVal)
  have val: "(of_nat (decimalStep (unat n) c) :: uint64) = n * 10 + of_nat ?d"
    by (simp add: decimalStep_def)
  show ?thesis
  proof (cases "2 ^ 64 \<le> unat n * 10")
    case True
    then have "cutoff \<le> n" by (simp only: cutoff_iff)
    moreover have "\<not> decimalStep (unat n) c < 2 ^ 64"
      using True by (simp add: decimalStep_def)
    ultimately show ?thesis by (simp only: step if_True if_False)
  next
    case False
    then have nc: "\<not> cutoff \<le> n" by (simp only: cutoff_iff not_False_eq_True)
    have m: "unat (n * 10) = unat n * 10"
      using False by (simp add: unat_times10)
    have ov: "(n * 10 + of_nat ?d < n * 10) = (2 ^ 64 \<le> unat (n * 10) + ?d)"
      by (rule add_digit_overflow [OF d10])
    have ov': "(n * 10 + of_nat ?d < n * 10) = (\<not> decimalStep (unat n) c < 2 ^ 64)"
      unfolding ov m decimalStep_def by (simp only: not_less)
    show ?thesis
      by (simp only: step nc if_False ov' val) simp
  qed
qed

lemma foldl_decimalStep_mono: "a \<le> foldl decimalStep a cs"
proof (induction cs arbitrary: a)
  case Nil
  then show ?case by simp
next
  case (Cons c cs)
  have "a \<le> decimalStep a c" by (simp add: decimalStep_def)
  also have "\<dots> \<le> foldl decimalStep (decimalStep a c) cs" by (rule Cons.IH)
  finally show ?case by simp
qed

lemma parseLoop_prefix:
  "list_all isDecDigit ds \<Longrightarrow>
   parseLoop n (ds @ rest) =
     (if foldl decimalStep (unat n) ds < 2 ^ 64
      then parseLoop (of_nat (foldl decimalStep (unat n) ds)) rest
      else (maxVal, Some ErrRange))"
proof (induction ds arbitrary: n)
  case Nil
  show ?case using unsigned_less [of n, where 'a = nat] by simp
next
  case (Cons c cs)
  then have c: "isDecDigit c" and cs: "list_all isDecDigit cs" by simp_all
  show ?case
  proof (cases "decimalStep (unat n) c < 2 ^ 64")
    case True
    then have u: "unat (of_nat (decimalStep (unat n) c) :: uint64) = decimalStep (unat n) c"
      by (simp add: unat_of_nat)
    show ?thesis
      using True Cons.IH [OF cs, of "of_nat (decimalStep (unat n) c)"] u
      by (simp add: parseLoop_digit [OF c] del: parseLoop.simps)
  next
    case False
    moreover have "decimalStep (unat n) c \<le> foldl decimalStep (decimalStep (unat n) c) cs"
      by (rule foldl_decimalStep_mono)
    ultimately show ?thesis
      by (simp add: parseLoop_digit [OF c] del: parseLoop.simps)
  qed
qed

lemma ParseUint_numeric:
  assumes "numeric s"
  shows "ParseUint s =
     (if decimal s < 2 ^ 64 then (of_nat (decimal s), None) else (maxVal, Some ErrRange))"
proof -
  from assms have ne: "s \<noteq> []" and ds: "list_all isDecDigit s"
    by (simp_all add: numeric_def)
  from parseLoop_prefix [OF ds, of 0 "[]"] ne show ?thesis
    by (simp add: ParseUint_def decimal_def)
qed

lemma ParseUint_syntax:
  assumes "\<not> numeric s" and "decimal (takeWhile isDecDigit s) < 2 ^ 64"
  shows "ParseUint s = (0, Some ErrSyntax)"
proof (cases "s = []")
  case True
  then show ?thesis by (simp add: ParseUint_def)
next
  case False
  with assms(1) have "\<not> list_all isDecDigit s" by (simp add: numeric_def)
  then have "dropWhile isDecDigit s \<noteq> []"
    by (simp add: list_all_iff)
  then obtain c rest where dw: "dropWhile isDecDigit s = c # rest"
    by (cases "dropWhile isDecDigit s") auto
  then have c: "\<not> isDecDigit c"
    using hd_dropWhile [of isDecDigit s] by auto
  have split: "s = takeWhile isDecDigit s @ c # rest"
    using takeWhile_dropWhile_id [of isDecDigit s] dw by simp
  have pre: "list_all isDecDigit (takeWhile isDecDigit s)"
    by (simp add: list_all_iff) (meson set_takeWhileD)
  have "parseLoop 0 s = parseLoop 0 (takeWhile isDecDigit s @ c # rest)"
    using split by simp
  also have "\<dots> = parseLoop (of_nat (decimal (takeWhile isDecDigit s))) (c # rest)"
    using parseLoop_prefix [OF pre, of 0 "c # rest"] assms(2) by (simp add: decimal_def)
  also have "\<dots> = (0, Some ErrSyntax)"
    by (rule parseLoop_nondigit [OF c])
  finally show ?thesis using False by (simp add: ParseUint_def)
qed

lemma unat_of_nat_min:
  "unat (if h < 2 ^ 64 then (of_nat h :: uint64) else maxVal) = min h (2 ^ 64 - 1)"
  by (simp add: maxVal_def unat_of_nat min_def)


subsection \<open>The window 100 to 200\<close>

text \<open>
  Claim C3. With \<open>StartBlock = 100\<close> and \<open>StopBlock = 200\<close> the heights 100 to 200
  should pass, 99 and 201 should fail, and with both bounds nil every height passes. The
  code compares the other way round (\<open>StartBlock \<ge> n\<close> under the name
  \<^verbatim>\<open>isAtLeastStartBlock\<close>, \<open>StopBlock \<le> n\<close> under the name
  \<^verbatim>\<open>isAtMostStopBlock\<close>): evaluated at the heights 100, 150 and 200, which lie within
  the bounds, \<open>shouldProcessBlock\<close> returns false.
\<close>

theorem shouldProcessBlock_inverted_window:
  "\<not> shouldProcessBlock (agentWith (Some 100) (Some 200)) ''100'' \<and>
   \<not> shouldProcessBlock (agentWith (Some 100) (Some 200)) ''150'' \<and>
   \<not> shouldProcessBlock (agentWith (Some 100) (Some 200)) ''200'' \<and>
   withinBounds (config (agentWith (Some 100) (Some 200))) (decimal ''150'')"
  by (simp add: shouldProcessBlock_def agentWith_def ParseUint_def digitOf_def lower_def
      cutoff_def maxVal_def word_le_nat_alt word_less_nat_alt withinBounds_def decimal_def
      decimalStep_def)

text \<open>With these bounds no height string passes at all; with both bounds nil every
  height string passes.\<close>

lemma shouldProcessBlock_100_200_never: "\<not> shouldProcessBlock (agentWith (Some 100) (Some 200)) s"
  by (auto simp add: shouldProcessBlock_def agentWith_def Let_def word_le_nat_alt)

lemma shouldProcessBlock_unbounded: "shouldProcessBlock (agentWith None None) s"
  by (simp add: shouldProcessBlock_def agentWith_def)

subsection \<open>The admission rule as the code computes it\<close>

text \<open>
  Claim C4, amended. For every numeric height string, \<open>shouldProcessBlock\<close> returns
  true exactly when the start bound is nil or \<open>h \<le> StartBlock\<close>, and the stop bound is
  nil or \<open>StopBlock \<le> h\<close>, where \<open>h\<close> is the number the string denotes, capped at
  \<open>2^64 - 1\<close> (a longer numeral is a range error of the parser, whose value is the
  cap, and the error is dropped).
\<close>

theorem shouldProcessBlock_admissionRule:
  assumes "numeric s"
  shows "shouldProcessBlock ag s = admissionRule (config ag) (min (decimal s) (2 ^ 64 - 1))"
proof -
  have "fst (ParseUint s) = (if decimal s < 2 ^ 64 then of_nat (decimal s) else maxVal)"
    by (simp add: ParseUint_numeric [OF assms])
  then have n: "unat (fst (ParseUint s)) = min (decimal s) (2 ^ 64 - 1)"
    by (simp only: unat_of_nat_min)
  show ?thesis
    unfolding shouldProcessBlock_def admissionRule_def Let_def n [symmetric]
    by (simp add: word_le_nat_alt split: option.splits)
qed

text \<open>Claim C4, an instance: the height 150 with \<open>StartBlock = 200\<close> and
  \<open>StopBlock = 100\<close> passes.\<close>

theorem shouldProcessBlock_admissionRule_witness:
  "numeric ''150'' \<and>
   shouldProcessBlock (agentWith (Some 200) (Some 100)) ''150'' \<and>
   admissionRule (config (agentWith (Some 200) (Some 100))) (min (decimal ''150'') (2 ^ 64 - 1))"
proof -
  have h: "numeric ''150''" by (simp add: numeric_def isDecDigit_def)
  have "admissionRule (config (agentWith (Some 200) (Some 100))) (min (decimal ''150'') (2 ^ 64 - 1))"
    by (simp add: admissionRule_def agentWith_def decimal_def decimalStep_def)
  then show ?thesis
    using h shouldProcessBlock_admissionRule [OF h, of "agentWith (Some 200) (Some 100)"] by simp
qed

text \<open>
  Claim C4 as stated, with \<open>h\<close> the number the string denotes, fails for a numeral
  past 64 bits: with \<open>StartBlock = 2^64 - 1\<close> and no stop bound, the height string
  \<open>18446744073709551616\<close> (that is \<open>2^64\<close>) passes, although \<open>h \<le> StartBlock\<close>
  is false.
\<close>

theorem shouldProcessBlock_overflow_counterexample:
  "numeric ''18446744073709551616'' \<and>
   shouldProcessBlock (agentWith (Some 18446744073709551615) None) ''18446744073709551616'' \<and>
   \<not> admissionRule (config (agentWith (Some 18446744073709551615) None))
        (decimal ''18446744073709551616'')"
  by (simp add: numeric_def isDecDigit_def shouldProcessBlock_def agentWith_def ParseUint_def
      digitOf_def lower_def cutoff_def maxVal_def word_le_nat_alt word_less_nat_alt
      admissionRule_def decimal_def decimalStep_def)

subsection \<open>Height strings that are no numerals\<close>

text \<open>
  Claim C10, amended. For every height string that is not numeric and whose leading
  digits (those before the first character that is no digit) denote a number below
  \<open>2^64\<close>, the parse failure is ignored and the height is 0: the call returns true
  exactly when \<open>StopBlock\<close> is nil or equals 0, whatever \<open>StartBlock\<close> is.
\<close>

theorem shouldProcessBlock_nonnumeric:
  assumes "\<not> numeric s" and "decimal (takeWhile isDecDigit s) < 2 ^ 64"
  shows "fst (ParseUint s) = 0 \<and>
         shouldProcessBlock ag s =
           (StopBlock (config ag) = None \<or> StopBlock (config ag) = Some 0)"
  by (simp add: shouldProcessBlock_def ParseUint_syntax [OF assms] split: option.splits)

text \<open>Claim C10, an instance: the hexadecimal height \<open>0x10d4f\<close> is read as 0; it
  passes with \<open>StopBlock = 0\<close> and fails with \<open>StopBlock = 7\<close>.\<close>

theorem shouldProcessBlock_nonnumeric_witness:
  "\<not> numeric ''0x10d4f'' \<and> decimal (takeWhile isDecDigit ''0x10d4f'') < 2 ^ 64 \<and>
   fst (ParseUint ''0x10d4f'') = 0 \<and>
   shouldProcessBlock (agentWith (Some 5) (Some 0)) ''0x10d4f'' \<and>
   \<not> shouldProcessBlock (agentWith (Some 5) (Some 7)) ''0x10d4f''"
proof -
  have h1: "\<not> numeric ''0x10d4f''" by (simp add: numeric_def isDecDigit_def)
  have h2: "decimal (takeWhile isDecDigit ''0x10d4f'') < 2 ^ 64"
    by (simp add: isDecDigit_def decimal_def decimalStep_def)
  show ?thesis
    using h1 h2
      shouldProcessBlock_nonnumeric [OF h1 h2, of "agentWith (Some 5) (Some 0)"]
      shouldProcessBlock_nonnumeric [OF h1 h2, of "agentWith (Some 5) (Some 7)"]
    by (simp add: agentWith_def)
qed

text \<open>
  Claim C10 as stated fails when the leading digits overflow before the parser reaches
  the character that is no digit: \<open>18446744073709551616x\<close> is not numeric, yet the
  height is \<open>2^64 - 1\<close>, not 0, and with \<open>StartBlock = 5\<close> and no stop bound the
  call returns false.
\<close>

theorem shouldProcessBlock_nonnumeric_counterexample:
  "\<not> numeric ''18446744073709551616x'' \<and>
   StopBlock (config (agentWith (Some 5) None)) = None \<and>
   fst (ParseUint ''18446744073709551616x'') = 18446744073709551615 \<and>
   \<not> shouldProcessBlock (agentWith (Some 5) None) ''18446744073709551616x''"
  by (simp add: numeric_def isDecDigit_def shouldProcessBlock_def agentWith_def ParseUint_def
      digitOf_def lower_def cutoff_def maxVal_def word_le_nat_alt word_less_nat_alt)

section \<open>Properties of the roster\<close>

subsection \<open>The three loops\<close>

lemma creationLoop_iff: "creationLoop roster u = (ID (Config u) \<in> ID ` set roster)"
  by (induction roster) auto

lemma updateLoop_fst: "fst (updateLoop roster elems u) = roster"
  by (induction elems) (simp_all add: Let_def)

lemma updateLoop_snd:
  "snd (updateLoop roster elems u) =
     map_option (\<lambda>a. a\<lparr>Image' := Image' (Config u)\<rparr>) (find (\<lambda>a. ID a = ID (Config u)) elems)"
  by (induction elems) (simp_all add: Let_def)

lemma removalLoop_filter:
  "removalLoop roster u newAgents = newAgents @ filter (\<lambda>a. ID a \<noteq> ID (Config u)) roster"
  by (induction roster arbitrary: newAgents) simp_all

lemma length_filter_distinct:
  "distinct (map f xs) \<Longrightarrow> x \<in> f ` set xs \<Longrightarrow> length (filter (\<lambda>a. f a \<noteq> x) xs) + 1 = length xs"
proof (induction xs)
  case Nil
  then show ?case by simp
next
  case (Cons y ys)
  show ?case
  proof (cases "f y = x")
    case True
    with Cons.prems have "x \<notin> f ` set ys" by auto
    then have "filter (\<lambda>a. f a \<noteq> x) ys = ys"
      by (auto simp add: filter_id_conv)
    with True show ?thesis by simp
  next
    case False
    with Cons show ?thesis by auto
  qed
qed

lemma filter_absent: "x \<notin> f ` set xs \<Longrightarrow> filter (\<lambda>a. f a \<noteq> x) xs = xs"
  by (auto simp add: filter_id_conv)

subsection \<open>Update events\<close>

text \<open>
  Claim C1. An update event for an ID that is in the roster should overwrite that
  entry's image and keep the length; for an ID that is not in the roster it should
  change nothing. The code assigns the new image to the loop variable, a copy of the
  entry: for the roster with the one entry \<open>0xa1\<close> at image \<open>img:v1\<close> and an update
  of \<open>0xa1\<close> to \<open>img:v2\<close>, the loop variable ends with \<open>img:v2\<close> and the roster
  that \<open>handleAgentUpdate\<close> leaves still holds \<open>img:v1\<close>.
\<close>

theorem handleAgentUpdate_update_keeps_image:
  "handleAgentUpdate [mkConfig ''0xa1'' ''img:v1'']
     \<lparr>Config = mkConfig ''0xa1'' ''img:v2'', IsCreation = False, IsUpdate = True, IsRemoval = False\<rparr>
   = Inr [mkConfig ''0xa1'' ''img:v1''] \<and>
   updateLoop [mkConfig ''0xa1'' ''img:v1''] [mkConfig ''0xa1'' ''img:v1'']
     \<lparr>Config = mkConfig ''0xa1'' ''img:v2'', IsCreation = False, IsUpdate = True, IsRemoval = False\<rparr>
   = ([mkConfig ''0xa1'' ''img:v1''], Some (mkConfig ''0xa1'' ''img:v2''))"
  by (simp add: handleAgentUpdate_def mkConfig_def)

text \<open>In general an update event leaves every roster as it is, whether the ID is
  present or not.\<close>

lemma handleAgentUpdate_update_noop:
  "\<not> IsCreation u \<Longrightarrow> IsUpdate u \<Longrightarrow> handleAgentUpdate roster u = Inr roster"
  by (simp add: handleAgentUpdate_def updateLoop_fst)

subsection \<open>Creation events\<close>

text \<open>
  Claim C5. A creation update whose ID is already in the roster leaves the roster
  unchanged (same entries, hence same length and same images); when no entry has that
  ID, the configuration is appended.
\<close>

theorem handleAgentUpdate_creation:
  assumes "IsCreation u"
  shows "handleAgentUpdate roster u =
     Inr (if ID (Config u) \<in> ID ` set roster then roster else roster @ [Config u])"
  using assms by (simp add: handleAgentUpdate_def creationLoop_iff)

text \<open>Claim C5, two instances: a creation of \<open>0xa1\<close> on a roster that holds
  \<open>0xa1\<close>, and on a roster that holds only \<open>0xb2\<close>.\<close>

theorem handleAgentUpdate_creation_witness:
  "IsCreation (creationUpdate\<lparr>Config := mkConfig ''0xa1'' ''img:v2''\<rparr>) \<and>
   handleAgentUpdate [mkConfig ''0xa1'' ''img:v1''] (creationUpdate\<lparr>Config := mkConfig ''0xa1'' ''img:v2''\<rparr>)
     = Inr [mkConfig ''0xa1'' ''img:v1''] \<and>
   handleAgentUpdate [mkConfig ''0xb2'' ''img:v1''] (creationUpdate\<lparr>Config := mkConfig ''0xa1'' ''img:v2''\<rparr>)
     = Inr [mkConfig ''0xb2'' ''img:v1'', mkConfig ''0xa1'' ''img:v2'']"
proof -
  have h: "IsCreation (creationUpdate\<lparr>Config := mkConfig ''0xa1'' ''img:v2''\<rparr>)"
    by (simp add: creationUpdate_def)
  show ?thesis
    using h
      handleAgentUpdate_creation [OF h, of "[mkConfig ''0xa1'' ''img:v1'']"]
      handleAgentUpdate_creation [OF h, of "[mkConfig ''0xb2'' ''img:v1'']"]
    by (simp add: mkConfig_def)
qed

subsection \<open>Removal events\<close>

text \<open>
  Claim C6. On a roster with at most one entry per ID, a removal update for an ID keeps
  exactly the entries with another ID: if the ID was present the length goes down by
  exactly one and no entry with the ID remains; if it was absent the roster is
  unchanged.
\<close>

theorem handleAgentUpdate_removal:
  assumes "distinct (map ID roster)"
    and "IsRemoval u" and "\<not> IsCreation u" and "\<not> IsUpdate u"
  shows "\<exists>roster'. handleAgentUpdate roster u = Inr roster' \<and>
     roster' = filter (\<lambda>a. ID a \<noteq> ID (Config u)) roster \<and>
     ID (Config u) \<notin> ID ` set roster' \<and>
     (if ID (Config u) \<in> ID ` set roster then length roster' + 1 = length roster
      else roster' = roster)"
proof -
  have "handleAgentUpdate roster u = Inr (filter (\<lambda>a. ID a \<noteq> ID (Config u)) roster)"
    using assms(2-4) by (simp add: handleAgentUpdate_def removalLoop_filter)
  moreover have "ID (Config u) \<notin> ID ` set (filter (\<lambda>a. ID a \<noteq> ID (Config u)) roster)"
    by auto
  moreover have "ID (Config u) \<in> ID ` set roster \<Longrightarrow>
      length (filter (\<lambda>a. ID a \<noteq> ID (Config u)) roster) + 1 = length roster"
    by (rule length_filter_distinct [OF assms(1)])
  moreover have "ID (Config u) \<notin> ID ` set roster \<Longrightarrow>
      filter (\<lambda>a. ID a \<noteq> ID (Config u)) roster = roster"
    by (rule filter_absent)
  ultimately show ?thesis by simp
qed

text \<open>Claim C6, two instances: removing \<open>0xa1\<close> from a roster of \<open>0xa1\<close> and
  \<open>0xb2\<close>, and from a roster of \<open>0xb2\<close> alone.\<close>

theorem handleAgentUpdate_removal_witness:
  "distinct (map ID [mkConfig ''0xa1'' ''img:v1'', mkConfig ''0xb2'' ''img:v1'']) \<and>
   IsRemoval (removalUpdate\<lparr>Config := mkConfig ''0xa1'' []\<rparr>) \<and>
   \<not> IsCreation (removalUpdate\<lparr>Config := mkConfig ''0xa1'' []\<rparr>) \<and>
   \<not> IsUpdate (removalUpdate\<lparr>Config := mkConfig ''0xa1'' []\<rparr>) \<and>
   handleAgentUpdate [mkConfig ''0xa1'' ''img:v1'', mkConfig ''0xb2'' ''img:v1'']
     (removalUpdate\<lparr>Config := mkConfig ''0xa1'' []\<rparr>) = Inr [mkConfig ''0xb2'' ''img:v1''] \<and>
   handleAgentUpdate [mkConfig ''0xb2'' ''img:v1'']
     (removalUpdate\<lparr>Config := mkConfig ''0xa1'' []\<rparr>) = Inr [mkConfig ''0xb2'' ''img:v1'']"
proof -
  let ?u = "removalUpdate\<lparr>Config := mkConfig ''0xa1'' []\<rparr>"
  have d1: "distinct (map ID [mkConfig ''0xa1'' ''img:v1'', mkConfig ''0xb2'' ''img:v1''])"
    and d2: "distinct (map ID [mkConfig ''0xb2'' ''img:v1''])"
    by (simp_all add: mkConfig_def)
  have r: "IsRemoval ?u" and c: "\<not> IsCreation ?u" and u: "\<not> IsUpdate ?u"
    by (simp_all add: removalUpdate_def)
  show ?thesis
    using d1 r c u
      handleAgentUpdate_removal [OF d1 r c u]
      handleAgentUpdate_removal [OF d2 r c u]
    by (simp add: mkConfig_def)
qed

section \<open>Properties of event detection and configuration resolution\<close>

subsection \<open>The retry loop\<close>

lemma catLoop_first_success:
  "k < 10 - i \<Longrightarrow> (\<forall>j<k. isl (cat (calls + j) path)) \<Longrightarrow> cat (calls + k) path = Inr r \<Longrightarrow>
   catLoop cat path i calls = (Inr r, calls + k + 1)"
proof (induction k arbitrary: i calls)
  case 0
  then show ?case by (simp add: catLoop.simps [of cat path i calls])
next
  case (Suc k)
  from Suc.prems(2) have "isl (cat (calls + 0) path)" by blast
  then obtain err where e: "cat calls path = Inl err" by (cases "cat calls path") auto
  have i: "i + 1 < 10" using Suc.prems(1) by simp
  have "catLoop cat path (i + 1) (calls + 1) = (Inr r, (calls + 1) + k + 1)"
  proof (rule Suc.IH)
    show "k < 10 - (i + 1)" using Suc.prems(1) by simp
    show "\<forall>j<k. isl (cat (calls + 1 + j) path)"
      using Suc.prems(2) by (metis Suc_eq_plus1 add_Suc_shift not_less_eq add.commute add.left_commute)
    show "cat (calls + 1 + k) path = Inr r" using Suc.prems(3) by (simp add: add.commute add.left_commute)
  qed
  with e i show ?case by (simp add: catLoop.simps [of cat path i calls])
qed

lemma catLoop_all_fail:
  "i < 10 \<Longrightarrow> (\<forall>j<10 - i. isl (cat (calls + j) path)) \<Longrightarrow>
   catLoop cat path i calls = (cat (calls + (9 - i)) path, calls + (10 - i))"
proof (induction cat path i calls rule: catLoop.induct)
  case (1 cat path i calls)
  from "1.prems" have "isl (cat (calls + 0) path)" by (metis zero_less_diff)
  then obtain err where e: "cat calls path = Inl err" by (cases "cat calls path") auto
  show ?case
  proof (cases "i + 1 < 10")
    case True
    have "\<forall>j<10 - (i + 1). isl (cat (calls + 1 + j) path)"
    proof (intro allI impI)
      fix j assume "j < 10 - (i + 1)"
      then have "Suc j < 10 - i" by simp
      with "1.prems"(2) have "isl (cat (calls + Suc j) path)" by blast
      then show "isl (cat (calls + 1 + j) path)" by simp
    qed
    with "1.IH" [OF e True True] have
      "catLoop cat path (i + 1) (calls + 1) = (cat (calls + 1 + (9 - (i + 1))) path, calls + 1 + (10 - (i + 1)))"
      by simp
    moreover have "calls + 1 + (9 - (i + 1)) = calls + (9 - i)" using True by simp
    moreover have "calls + 1 + (10 - (i + 1)) = calls + (10 - i)" using True by simp
    ultimately show ?thesis using e True by (simp add: catLoop.simps [of cat path i calls])
  next
    case False
    with "1.prems"(1) have "i = 9" by simp
    with e show ?thesis by (simp add: catLoop.simps [of cat path 9 calls])
  qed
qed

lemma catLoop_calls_bound:
  "i < 10 \<Longrightarrow> calls < snd (catLoop cat path i calls) \<and> snd (catLoop cat path i calls) \<le> calls + (10 - i)"
proof (induction cat path i calls rule: catLoop.induct)
  case (1 cat path i calls)
  show ?case
  proof (cases "cat calls path")
    case (Inr r)
    then show ?thesis using "1.prems" by (simp add: catLoop.simps [of cat path i calls])
  next
    case (Inl err)
    show ?thesis
    proof (cases "i + 1 < 10")
      case True
      from "1.IH" [OF Inl True True] Inl True show ?thesis
        by (simp add: catLoop.simps [of cat path i calls]) arith
    next
      case False
      with Inl "1.prems" show ?thesis by (simp add: catLoop.simps [of cat path i calls])
    qed
  qed
qed

subsection \<open>A fetch that fails ten times\<close>

text \<open>The consumer does not read the call counter.\<close>

lemma consumeUpdates_catCalls:
  "consumeUpdates (rs\<lparr>catCalls := n\<rparr>) queue =
     map_sum id (\<lambda>s. s\<lparr>catCalls := n\<rparr>) (consumeUpdates rs queue)"
proof (induction queue arbitrary: rs)
  case Nil
  show ?case by simp
next
  case (Cons u queue)
  show ?case
  proof (cases "handleAgentUpdate (agentsConfigs rs) u")
    case (Inl p)
    then show ?thesis by simp
  next
    case (Inr roster)
    let ?rs' = "rs\<lparr>agentsConfigs := roster, published := published rs @ [roster]\<rparr>"
    have eq: "rs\<lparr>catCalls := n, agentsConfigs := roster, published := published rs @ [roster]\<rparr> =
          ?rs'\<lparr>catCalls := n\<rparr>"
      by simp
    have "consumeUpdates (rs\<lparr>catCalls := n\<rparr>) (u # queue) =
          consumeUpdates (?rs'\<lparr>catCalls := n\<rparr>) queue"
      using Inr by (simp add: eq)
    also have "\<dots> = map_sum id (\<lambda>s. s\<lparr>catCalls := n\<rparr>) (consumeUpdates ?rs' queue)"
      by (rule Cons.IH)
    also have "consumeUpdates ?rs' queue = consumeUpdates rs (u # queue)"
      using Inr by simp
    finally show ?thesis .
  qed
qed

lemma makeAgentConfig_all_fail:
  assumes "ref \<noteq> []" and "\<forall>k<10. isl (Cat deps (catCalls rs + k) (''/ipfs/'' @ ref))"
  shows "makeAgentConfig deps rs agentID ref =
     ((\<lparr>ID = hashString deps agentID, Image' = [], StartBlock = None, StopBlock = None\<rparr>,
       Some (''failed to load the agent file using ipfs ref: '' @
             projl (Cat deps (catCalls rs + 9) (''/ipfs/'' @ ref)))),
      rs\<lparr>catCalls := catCalls rs + 10\<rparr>)"
proof -
  have "isl (Cat deps (catCalls rs + 9) (''/ipfs/'' @ ref))"
    using assms(2) by simp
  then obtain err where e: "Cat deps (catCalls rs + 9) (''/ipfs/'' @ ref) = Inl err"
    by (cases "Cat deps (catCalls rs + 9) (''/ipfs/'' @ ref)") auto
  have "catLoop (Cat deps) (''/ipfs/'' @ ref) 0 (catCalls rs) = (Inl err, catCalls rs + 10)"
    using catLoop_all_fail [of 0 "Cat deps" "catCalls rs" "''/ipfs/'' @ ref"] assms(2) e by simp
  with assms(1) e show ?thesis by (simp add: makeAgentConfig_def)
qed

lemma makeAgentConfig_calls:
  assumes "ref \<noteq> []"
  shows "catCalls (snd (makeAgentConfig deps rs agentID ref)) =
         snd (catLoop (Cat deps) (''/ipfs/'' @ ref) 0 (catCalls rs))"
  using assms by (simp add: makeAgentConfig_def Let_def split: prod.splits sum.splits)

lemma sendAgentUpdate_calls:
  "catCalls (snd (sendAgentUpdate deps rs u agentID ref)) =
   catCalls (snd (makeAgentConfig deps rs agentID ref))"
  by (simp add: sendAgentUpdate_def split: prod.splits option.splits)

text \<open>
  Claim C7. For an event with a non-empty reference, the content store is called at
  most 10 times; when the first success comes at attempt \<open>k + 1\<close> (the \<open>k\<close> attempts
  before it having failed), exactly \<open>k + 1\<close> calls are made; when all 10 attempts
  fail, \<open>makeAgentConfig\<close> returns the fetch error, \<open>sendAgentUpdate\<close> returns it
  and changes nothing but the call counter: the queue of updates, the roster and the
  published rosters are as before, and the consumer, run afterwards, does what it would
  have done without the event.
\<close>

theorem sendAgentUpdate_fetch_retries:
  assumes "ref \<noteq> []"
  shows "catCalls (snd (sendAgentUpdate deps rs u agentID ref)) \<le> catCalls rs + 10 \<and>
    (\<forall>k<10. (\<forall>j<k. isl (Cat deps (catCalls rs + j) (''/ipfs/'' @ ref))) \<and>
            \<not> isl (Cat deps (catCalls rs + k) (''/ipfs/'' @ ref)) \<longrightarrow>
        catCalls (snd (sendAgentUpdate deps rs u agentID ref)) = catCalls rs + k + 1) \<and>
    ((\<forall>k<10. isl (Cat deps (catCalls rs + k) (''/ipfs/'' @ ref))) \<longrightarrow>
        snd (fst (makeAgentConfig deps rs agentID ref)) =
          Some (''failed to load the agent file using ipfs ref: '' @
                projl (Cat deps (catCalls rs + 9) (''/ipfs/'' @ ref))) \<and>
        sendAgentUpdate deps rs u agentID ref =
          (Some (''failed to load the agent file using ipfs ref: '' @
                 projl (Cat deps (catCalls rs + 9) (''/ipfs/'' @ ref))),
           rs\<lparr>catCalls := catCalls rs + 10\<rparr>) \<and>
        agentUpdates (snd (sendAgentUpdate deps rs u agentID ref)) = agentUpdates rs \<and>
        agentsConfigs (snd (sendAgentUpdate deps rs u agentID ref)) = agentsConfigs rs \<and>
        published (snd (sendAgentUpdate deps rs u agentID ref)) = published rs \<and>
        listenToAgentUpdates (snd (sendAgentUpdate deps rs u agentID ref)) =
          map_sum id (\<lambda>s. s\<lparr>catCalls := catCalls rs + 10\<rparr>) (listenToAgentUpdates rs))"
proof (intro conjI allI impI)
  let ?path = "''/ipfs/'' @ ref"
  have c: "catCalls (snd (sendAgentUpdate deps rs u agentID ref)) =
           snd (catLoop (Cat deps) ?path 0 (catCalls rs))"
    by (simp add: sendAgentUpdate_calls makeAgentConfig_calls [OF assms])
  show "catCalls (snd (sendAgentUpdate deps rs u agentID ref)) \<le> catCalls rs + 10"
    using catLoop_calls_bound [of 0 "catCalls rs" "Cat deps" ?path] by (simp add: c)
  {
    fix k :: nat
    assume k: "k < 10"
      and h: "(\<forall>j<k. isl (Cat deps (catCalls rs + j) ?path)) \<and> \<not> isl (Cat deps (catCalls rs + k) ?path)"
    then obtain r where r: "Cat deps (catCalls rs + k) ?path = Inr r"
      by (cases "Cat deps (catCalls rs + k) ?path") auto
    have "catLoop (Cat deps) ?path 0 (catCalls rs) = (Inr r, catCalls rs + k + 1)"
      using catLoop_first_success [of k 0 "Cat deps" "catCalls rs" ?path r] k h r by simp
    then show "catCalls (snd (sendAgentUpdate deps rs u agentID ref)) = catCalls rs + k + 1"
      by (simp add: c)
  }
  assume fail: "\<forall>k<10. isl (Cat deps (catCalls rs + k) ?path)"
  note m = makeAgentConfig_all_fail [OF assms fail, of agentID]
  show "snd (fst (makeAgentConfig deps rs agentID ref)) =
          Some (''failed to load the agent file using ipfs ref: '' @
                projl (Cat deps (catCalls rs + 9) ?path))"
    by (simp add: m)
  show s: "sendAgentUpdate deps rs u agentID ref =
          (Some (''failed to load the agent file using ipfs ref: '' @
                 projl (Cat deps (catCalls rs + 9) ?path)),
           rs\<lparr>catCalls := catCalls rs + 10\<rparr>)"
    by (simp add: sendAgentUpdate_def m)
  show "agentUpdates (snd (sendAgentUpdate deps rs u agentID ref)) = agentUpdates rs"
    by (simp add: s)
  show "agentsConfigs (snd (sendAgentUpdate deps rs u agentID ref)) = agentsConfigs rs"
    by (simp add: s)
  show "published (snd (sendAgentUpdate deps rs u agentID ref)) = published rs"
    by (simp add: s)
  show "listenToAgentUpdates (snd (sendAgentUpdate deps rs u agentID ref)) =
          map_sum id (\<lambda>s. s\<lparr>catCalls := catCalls rs + 10\<rparr>) (listenToAgentUpdates rs)"
    by (simp add: s listenToAgentUpdates_def consumeUpdates_catCalls)
qed

lemma catLoop_success_now: "cat n path = Inr r \<Longrightarrow> catLoop cat path i n = (Inr r, n + 1)"
  by (simp add: catLoop.simps [of cat path i n])

text \<open>Claim C7, two instances: a store that always times out (10 calls, the error,
  nothing queued), and a store that answers at the third attempt (3 calls).\<close>

theorem sendAgentUpdate_fetch_retries_witness:
  "sendAgentUpdate (demoDeps (\<lambda>n path. Inl ''timeout'')) emptyService creationUpdate ''0xa1'' ''QmA''
     = (Some ''failed to load the agent file using ipfs ref: timeout'', emptyService\<lparr>catCalls := 10\<rparr>) \<and>
   catCalls (snd (sendAgentUpdate
       (demoDeps (\<lambda>n path. if n < 2 then Inl ''timeout'' else Inr ''registry.example/img:v1''))
       emptyService creationUpdate ''0xa1'' ''QmA'')) = 3"
proof -
  let ?down = "demoDeps (\<lambda>n path. Inl ''timeout'')"
  let ?flaky = "demoDeps (\<lambda>n path. if n < 2 then Inl ''timeout'' else Inr ''registry.example/img:v1'')"
  have h: "''QmA'' \<noteq> []" by simp
  have fail: "\<forall>k<10. isl (Cat ?down (catCalls emptyService + k) (''/ipfs/'' @ ''QmA''))"
    by (simp add: demoDeps_def)
  from sendAgentUpdate_fetch_retries [OF h, of ?down emptyService creationUpdate "''0xa1''"] fail
  have "sendAgentUpdate ?down emptyService creationUpdate ''0xa1'' ''QmA'' =
          (Some (''failed to load the agent file using ipfs ref: '' @
                 projl (Cat ?down (catCalls emptyService + 9) (''/ipfs/'' @ ''QmA''))),
           emptyService\<lparr>catCalls := catCalls emptyService + 10\<rparr>)"
    by blast
  then have a: "sendAgentUpdate ?down emptyService creationUpdate ''0xa1'' ''QmA'' =
      (Some ''failed to load the agent file using ipfs ref: timeout'', emptyService\<lparr>catCalls := 10\<rparr>)"
    by (simp add: demoDeps_def emptyService_def)
  have ok: "(\<forall>j<2. isl (Cat ?flaky (catCalls emptyService + j) (''/ipfs/'' @ ''QmA''))) \<and>
            \<not> isl (Cat ?flaky (catCalls emptyService + 2) (''/ipfs/'' @ ''QmA''))"
    by (simp add: demoDeps_def emptyService_def)
  from sendAgentUpdate_fetch_retries [OF h, of ?flaky emptyService creationUpdate "''0xa1''"]
  have "\<forall>k<10. (\<forall>j<k. isl (Cat ?flaky (catCalls emptyService + j) (''/ipfs/'' @ ''QmA''))) \<and>
            \<not> isl (Cat ?flaky (catCalls emptyService + k) (''/ipfs/'' @ ''QmA'')) \<longrightarrow>
        catCalls (snd (sendAgentUpdate ?flaky emptyService creationUpdate ''0xa1'' ''QmA'')) =
          catCalls emptyService + k + 1"
    by blast
  from this [rule_format, of 2] ok
  have b: "catCalls (snd (sendAgentUpdate ?flaky emptyService creationUpdate ''0xa1'' ''QmA'')) = 3"
    by (simp add: emptyService_def)
  from a b show ?thesis by (rule conjI)
qed

subsection \<open>The order of decoding\<close>

text \<open>What \<open>detectAgentEvents\<close> does with the first log, by the first shape that
  decodes it: added, then updated, then removed; a log of no shape, or of another pool,
  is passed over.\<close>

lemma detectAgentEvents_added:
  assumes "transformLog (HexToHash deps) l = Inr log"
    and "UnpackAgentRegistryAgentAdded deps log = Inr ev"
  shows "detectAgentEvents deps rs (l # rest) =
     (if hashString deps (PoolId ev) \<noteq> hashString deps (poolID deps)
      then detectAgentEvents deps rs rest
      else Inr (sendAgentUpdate deps rs creationUpdate (AgentId ev) (Ref ev)))"
  using assms by simp

lemma detectAgentEvents_updated:
  assumes "transformLog (HexToHash deps) l = Inr log"
    and "UnpackAgentRegistryAgentAdded deps log = Inl e1"
    and "UnpackAgentRegistryAgentUpdated deps log = Inr ev"
  shows "detectAgentEvents deps rs (l # rest) =
     (if hashString deps (PoolId ev) \<noteq> hashString deps (poolID deps)
      then detectAgentEvents deps rs rest
      else Inr (sendAgentUpdate deps rs updateUpdate (AgentId ev) (Ref ev)))"
  using assms by simp

lemma detectAgentEvents_removed:
  assumes "transformLog (HexToHash deps) l = Inr log"
    and "UnpackAgentRegistryAgentAdded deps log = Inl e1"
    and "UnpackAgentRegistryAgentUpdated deps log = Inl e2"
    and "UnpackAgentRegistryAgentRemoved deps log = Inr ev"
  shows "detectAgentEvents deps rs (l # rest) =
     (if hashString deps (PoolId ev) \<noteq> hashString deps (poolID deps)
      then detectAgentEvents deps rs rest
      else Inr (sendAgentUpdate deps rs removalUpdate (AgentId ev) []))"
  using assms by simp

lemma detectAgentEvents_no_match:
  assumes "transformLog (HexToHash deps) l = Inr log"
    and "UnpackAgentRegistryAgentAdded deps log = Inl e1"
    and "UnpackAgentRegistryAgentUpdated deps log = Inl e2"
    and "UnpackAgentRegistryAgentRemoved deps log = Inl e3"
  shows "detectAgentEvents deps rs (l # rest) = detectAgentEvents deps rs rest"
  using assms by simp

subsection \<open>Several events in one transaction\<close>

text \<open>
  Claim C2. Each log is tried against the three shapes in the order added, updated,
  removed, and every log that decodes to an event of this node's pool should queue one
  update, in the order of the logs. The function returns at the first such log: for a
  transaction whose two logs both decode to \<open>AgentAdded\<close> events of the node's pool
  (agents \<open>0xa1\<close> and \<open>0xb2\<close>), with a content store that answers at once, one
  update is queued, that of \<open>0xa1\<close>, after a single fetch; the second log is never
  examined.
\<close>

theorem detectAgentEvents_first_event_only:
  "detectAgentEvents (demoDeps (\<lambda>n path. Inr ''registry.example/img:v1'')) emptyService
     [logOf ''AgentAdded'' ''pool-P'' ''0xa1'' ''QmA'', logOf ''AgentAdded'' ''pool-P'' ''0xb2'' ''QmB'']
   = Inr (None, emptyService\<lparr>catCalls := 1,
            agentUpdates := [creationUpdate\<lparr>Config := mkConfig ''0xa1'' ''registry.example/img:v1''\<rparr>]\<rparr>)"
  by (simp add: demoDeps_def logOf_def transformLog_def eventOf_def sendAgentUpdate_def
      makeAgentConfig_def catLoop_success_now emptyService_def mkConfig_def)

text \<open>In general one call of \<open>detectAgentEvents\<close> queues at most one update.\<close>

lemma sendAgentUpdate_queue:
  "length (agentUpdates (snd (sendAgentUpdate deps rs u agentID ref))) \<le> length (agentUpdates rs) + 1"
  by (simp add: sendAgentUpdate_def makeAgentConfig_def Let_def split: prod.splits option.splits sum.splits)

lemma detectAgentEvents_at_most_one:
  "detectAgentEvents deps rs logs = Inr (e, rs') \<Longrightarrow>
   length (agentUpdates rs') \<le> length (agentUpdates rs) + 1"
proof (induction logs)
  case Nil
  then show ?case by simp
next
  case (Cons l logs)
  have s: "\<And>u a r e rs'. sendAgentUpdate deps rs u a r = (e, rs') \<Longrightarrow>
      length (agentUpdates rs') \<le> length (agentUpdates rs) + 1"
    using sendAgentUpdate_queue by (metis snd_conv)
  from Cons show ?case
    by (auto split: sum.splits if_splits dest: s)
qed

section \<open>Properties of the query API\<close>

lemma Atoi_empty: "Atoi [] = None"
  by (simp add: Atoi_def numeric_def)

text \<open>
  Claim C8. A \<^verbatim>\<open>limit\<close> that parses to an integer above 1000 makes
  \<open>parseQueryRequest\<close> return an error, whatever the other parameters are, and the
  handler answers with status 400 and that error. When the
  other parameters are accepted (the request is built, with the default limit 100): an
  absent \<^verbatim>\<open>limit\<close> leaves the limit at 100, a \<^verbatim>\<open>limit\<close> above 1000 is
  rejected with \<open>limit cannot exceed 1000\<close>, and a \<^verbatim>\<open>limit\<close> of at most 1000
  becomes the limit of the request. An absent parameter is one that \<^verbatim>\<open>Get\<close> reads as
  the empty string.
\<close>

theorem parseQueryRequest_limit:
  "(\<forall>l. Atoi (Get q ''limit'') = Some l \<and> 1000 < l \<longrightarrow>
      (\<exists>err. parseQueryRequest q now = Inl err \<and>
             getAlerts QueryAlerts Marshal q now = Inl (400, err))) \<and>
   (\<forall>request. buildRequest q now = Inr request \<longrightarrow>
      Limit request = 100 \<and>
      (Get q ''limit'' = [] \<longrightarrow> parseQueryRequest q now = Inr request) \<and>
      (\<forall>l. Atoi (Get q ''limit'') = Some l \<and> 1000 < l \<longrightarrow>
           parseQueryRequest q now = Inl ''limit cannot exceed 1000'') \<and>
      (\<forall>l. Atoi (Get q ''limit'') = Some l \<and> l \<le> 1000 \<longrightarrow>
           parseQueryRequest q now = Inr (request\<lparr>Limit := l\<rparr>)))"
proof (intro conjI allI impI)
  fix l
  assume a: "Atoi (Get q ''limit'') = Some l \<and> 1000 < l"
  then have ne: "Get q ''limit'' \<noteq> []" using Atoi_empty by auto
  have "isl (parseQueryRequest q now)"
    using a ne
    by (cases "buildRequest q now") (simp_all add: parseQueryRequest_def applyLimit_def maxPageLimit_def)
  then obtain err where "parseQueryRequest q now = Inl err"
    by (cases "parseQueryRequest q now") auto
  then show "\<exists>err. parseQueryRequest q now = Inl err \<and>
      getAlerts QueryAlerts Marshal q now = Inl (400, err)"
    by (simp add: getAlerts_def)
next
  fix request
  assume b: "buildRequest q now = Inr request"
  show "Limit request = 100"
    using b
    by (auto simp add: buildRequest_def Let_def defaultPageLimit_def split: sum.splits if_splits)
  {
    assume "Get q ''limit'' = []"
    then show "parseQueryRequest q now = Inr request"
      using b by (simp add: parseQueryRequest_def applyLimit_def)
  }
  {
    fix l
    assume a: "Atoi (Get q ''limit'') = Some l \<and> 1000 < l"
    then have ne: "Get q ''limit'' \<noteq> []" using Atoi_empty by auto
    show "parseQueryRequest q now = Inl ''limit cannot exceed 1000''"
      using a b ne by (simp add: parseQueryRequest_def applyLimit_def maxPageLimit_def)
  }
  {
    fix l
    assume a: "Atoi (Get q ''limit'') = Some l \<and> l \<le> 1000"
    then have ne: "Get q ''limit'' \<noteq> []" using Atoi_empty by auto
    show "parseQueryRequest q now = Inr (request\<lparr>Limit := l\<rparr>)"
      using a b ne by (simp add: parseQueryRequest_def applyLimit_def maxPageLimit_def)
  }
qed


text \<open>Claim C8, three instances: no \<^verbatim>\<open>limit\<close>, \<^verbatim>\<open>limit=1001\<close> and
  \<^verbatim>\<open>limit=50\<close>.\<close>

theorem parseQueryRequest_limit_witness:
  "parseQueryRequest [(''sort'', ''desc'')] 1700000000000000000 =
     Inr \<lparr>StartTime = 1699395200000000000, EndTime = 1700000000000000000, PageToken = [],
          Limit = 100, Criteria = [], Reverse = True\<rparr> \<and>
   parseQueryRequest [(''limit'', ''1001'')] 1700000000000000000 = Inl ''limit cannot exceed 1000'' \<and>
   parseQueryRequest [(''limit'', ''50'')] 1700000000000000000 =
     Inr \<lparr>StartTime = 1699395200000000000, EndTime = 1700000000000000000, PageToken = [],
          Limit = 50, Criteria = [], Reverse = False\<rparr>"
proof -
  let ?now = "1700000000000000000 :: int"
  have b1: "buildRequest [(''sort'', ''desc'')] ?now =
      Inr \<lparr>StartTime = 1699395200000000000, EndTime = ?now, PageToken = [],
           Limit = 100, Criteria = [], Reverse = True\<rparr>"
    by (simp add: buildRequest_def getDateParam_def Get_def queryValues_def
        parseFilterCriteria_def isReservedParam_def reservedParams_def defaultSinceDate_def
        defaultPageLimit_def)
  have g1: "Get [(''sort'', ''desc'')] ''limit'' = []"
    by (simp add: Get_def queryValues_def)
  have b2: "buildRequest [(''limit'', ''1001'')] ?now =
      Inr \<lparr>StartTime = 1699395200000000000, EndTime = ?now, PageToken = [],
           Limit = 100, Criteria = [], Reverse = False\<rparr>"
    by (simp add: buildRequest_def getDateParam_def Get_def queryValues_def
        parseFilterCriteria_def isReservedParam_def reservedParams_def defaultSinceDate_def
        defaultPageLimit_def)
  have a2: "Atoi (Get [(''limit'', ''1001'')] ''limit'') = Some 1001 \<and> (1000 :: int) < 1001"
    by (simp add: Get_def queryValues_def Atoi_def numeric_def isDecDigit_def decimal_def
        decimalStep_def)
  have b3: "buildRequest [(''limit'', ''50'')] ?now =
      Inr \<lparr>StartTime = 1699395200000000000, EndTime = ?now, PageToken = [],
           Limit = 100, Criteria = [], Reverse = False\<rparr>"
    by (simp add: buildRequest_def getDateParam_def Get_def queryValues_def
        parseFilterCriteria_def isReservedParam_def reservedParams_def defaultSinceDate_def
        defaultPageLimit_def)
  have a3: "Atoi (Get [(''limit'', ''50'')] ''limit'') = Some 50 \<and> (50 :: int) \<le> 1000"
    by (simp add: Get_def queryValues_def Atoi_def numeric_def isDecDigit_def decimal_def
        decimalStep_def)
  from parseQueryRequest_limit [of "[(''sort'', ''desc'')]" ?now] b1 g1
  have r1: "parseQueryRequest [(''sort'', ''desc'')] ?now =
      Inr \<lparr>StartTime = 1699395200000000000, EndTime = ?now, PageToken = [],
           Limit = 100, Criteria = [], Reverse = True\<rparr>"
    by blast
  from parseQueryRequest_limit [of "[(''limit'', ''1001'')]" ?now] b2 a2
  have r2: "parseQueryRequest [(''limit'', ''1001'')] ?now = Inl ''limit cannot exceed 1000''"
    by blast
  from parseQueryRequest_limit [of "[(''limit'', ''50'')]" ?now] b3 a3
  have "parseQueryRequest [(''limit'', ''50'')] ?now =
      Inr (\<lparr>StartTime = 1699395200000000000, EndTime = ?now, PageToken = [],
           Limit = 100, Criteria = [], Reverse = False\<rparr>\<lparr>Limit := 50\<rparr>)"
    by blast
  then have r3: "parseQueryRequest [(''limit'', ''50'')] ?now =
      Inr \<lparr>StartTime = 1699395200000000000, EndTime = ?now, PageToken = [],
           Limit = 50, Criteria = [], Reverse = False\<rparr>"
    by simp
  from r1 r2 r3 show ?thesis by simp
qed

section \<open>Properties of the evaluation pipelines\<close>

text \<open>When every successful answer of the client carries a metadata map, the pipelines
  return for every sequence of requests.\<close>

lemma processTransactions_total:
  "(\<And>n q resp. EvaluateTx deps n q = Inr resp \<Longrightarrow> Metadata resp \<noteq> None) \<Longrightarrow>
   \<exists>p'. processTransactions deps p requests = Inr p'"
proof (induction requests arbitrary: p)
  case Nil
  show ?case by simp
next
  case (Cons request rest)
  show ?case
  proof (cases "EvaluateTx deps (clientCalls p) request")
    case (Inr resp)
    with Cons.prems obtain m where m: "Metadata resp = Some m" by blast
    with Inr Cons.IH [OF Cons.prems] show ?thesis by simp
  next
    case (Inl err)
    obtain b c where t: "TooManyErrs deps (errCounter (worker p)) err = (b, c)"
      by (cases "TooManyErrs deps (errCounter (worker p)) err")
    with Inl Cons.IH [OF Cons.prems] show ?thesis by (cases b) simp_all
  qed
qed

lemma processBlocks_total:
  "(\<And>n b resp. EvaluateBlock deps n b = Inr resp \<Longrightarrow> Metadata resp \<noteq> None) \<Longrightarrow>
   \<exists>p'. processBlocks deps p requests = Inr p'"
proof (induction requests arbitrary: p)
  case Nil
  show ?case by simp
next
  case (Cons request rest)
  show ?case
  proof (cases "EvaluateBlock deps (clientCalls p) request")
    case (Inr resp)
    with Cons.prems obtain m where m: "Metadata resp = Some m" by blast
    with Inr Cons.IH [OF Cons.prems] show ?thesis by simp
  next
    case (Inl err)
    obtain b c where t: "TooManyErrs deps (errCounter (worker p)) err = (b, c)"
      by (cases "TooManyErrs deps (errCounter (worker p)) err")
    with Inl Cons.IH [OF Cons.prems] show ?thesis by (cases b) simp_all
  qed
qed

text \<open>
  Claim C9. When the call for a request succeeds and the response's metadata map is
  nil, the pipeline panics at the assignment of the \<open>imageHash\<close> entry, in
  \<open>processTransactions\<close> and in \<open>processBlocks\<close> alike; when every successful
  response carries a non-nil map, both pipelines return.
\<close>

theorem pipelines_nil_metadata:
  "(\<forall>resp. EvaluateTx deps (clientCalls p) request = Inr resp \<and> Metadata resp = None \<longrightarrow>
      processTransactions deps p (request # rest) = Inl (Panic ''assignment to entry in nil map'')) \<and>
   (\<forall>resp. EvaluateBlock deps (clientCalls pb) block = Inr resp \<and> Metadata resp = None \<longrightarrow>
      processBlocks deps pb (block # blocks) = Inl (Panic ''assignment to entry in nil map'')) \<and>
   ((\<forall>n q resp. EvaluateTx deps n q = Inr resp \<longrightarrow> Metadata resp \<noteq> None) \<longrightarrow>
      (\<exists>p'. processTransactions deps p requests = Inr p')) \<and>
   ((\<forall>n b resp. EvaluateBlock deps n b = Inr resp \<longrightarrow> Metadata resp \<noteq> None) \<longrightarrow>
      (\<exists>p'. processBlocks deps pb requestsb = Inr p'))"
proof (intro conjI allI impI)
  fix resp
  assume "EvaluateTx deps (clientCalls p) request = Inr resp \<and> Metadata resp = None"
  then show "processTransactions deps p (request # rest) = Inl (Panic ''assignment to entry in nil map'')"
    by simp
next
  fix resp
  assume "EvaluateBlock deps (clientCalls pb) block = Inr resp \<and> Metadata resp = None"
  then show "processBlocks deps pb (block # blocks) = Inl (Panic ''assignment to entry in nil map'')"
    by simp
next
  assume "\<forall>n q resp. EvaluateTx deps n q = Inr resp \<longrightarrow> Metadata resp \<noteq> None"
  then show "\<exists>p'. processTransactions deps p requests = Inr p'"
    by (intro processTransactions_total) blast
next
  assume "\<forall>n b resp. EvaluateBlock deps n b = Inr resp \<longrightarrow> Metadata resp \<noteq> None"
  then show "\<exists>p'. processBlocks deps pb requestsb = Inr p'"
    by (intro processBlocks_total) blast
qed

text \<open>Claim C9, instances: a client answering with a nil map (panic at the first
  request), and a client answering with an empty map (both pipelines return).\<close>

theorem pipelines_nil_metadata_witness:
  "processTransactions (demoAgentDeps None) freshPipeline [''tx1'', ''tx2'']
     = Inl (Panic ''assignment to entry in nil map'') \<and>
   processBlocks (demoAgentDeps None) freshPipeline [''block1'']
     = Inl (Panic ''assignment to entry in nil map'') \<and>
   (\<exists>p'. processTransactions (demoAgentDeps (Some Map.empty)) freshPipeline [''tx1'', ''tx2''] = Inr p') \<and>
   (\<exists>p'. processBlocks (demoAgentDeps (Some Map.empty)) freshPipeline [''block1''] = Inr p')"
proof -
  note t = pipelines_nil_metadata [of "demoAgentDeps None" freshPipeline "''tx1''" "[''tx2'']"
      freshPipeline "''block1''" "[]" "[]" "[]"]
  note s = pipelines_nil_metadata [of "demoAgentDeps (Some Map.empty)" freshPipeline "''tx1''" "[]"
      freshPipeline "''block1''" "[]" "[''tx1'', ''tx2'']" "[''block1'']"]
  have n1: "EvaluateTx (demoAgentDeps None) (clientCalls freshPipeline) ''tx1'' =
              Inr \<lparr>Metadata = None, Verdict = ()\<rparr> \<and>
            Metadata \<lparr>Metadata = None, Verdict = ()\<rparr> = None"
    by (simp add: demoAgentDeps_def)
  have n2: "EvaluateBlock (demoAgentDeps None) (clientCalls freshPipeline) ''block1'' =
              Inr \<lparr>Metadata = None, Verdict = ()\<rparr> \<and>
            Metadata \<lparr>Metadata = None, Verdict = ()\<rparr> = None"
    by (simp add: demoAgentDeps_def)
  have o1: "\<forall>n q resp. EvaluateTx (demoAgentDeps (Some Map.empty)) n q = Inr resp \<longrightarrow> Metadata resp \<noteq> None"
    by (auto simp add: demoAgentDeps_def)
  have o2: "\<forall>n b resp. EvaluateBlock (demoAgentDeps (Some Map.empty)) n b = Inr resp \<longrightarrow> Metadata resp \<noteq> None"
    by (auto simp add: demoAgentDeps_def)
  from t n1 have a: "processTransactions (demoAgentDeps None) freshPipeline [''tx1'', ''tx2'']
     = Inl (Panic ''assignment to entry in nil map'')" by blast
  from t n2 have b: "processBlocks (demoAgentDeps None) freshPipeline [''block1'']
     = Inl (Panic ''assignment to entry in nil map'')" by blast
  from s o1 have c: "\<exists>p'. processTransactions (demoAgentDeps (Some Map.empty)) freshPipeline [''tx1'', ''tx2''] = Inr p'"
    by blast
  from s o2 have d: "\<exists>p'. processBlocks (demoAgentDeps (Some Map.empty)) freshPipeline [''block1''] = Inr p'"
    by blast
  from a b c d show ?thesis by blast
qed

end
